theory Spec2Isabelle
  imports Main "HOL-Library.Word"
begin

section \<open>The zap Logger: data model\<close>

text \<open>
  This theory embeds \<^verbatim>\<open>logger.go\<close> and \<^verbatim>\<open>options.go\<close> of package zap
  (both in \<^verbatim>\<open>src/trans/logger_trans.go\<close>): the Logger struct, its constructors,
  the configuration-producing methods (Sugar, Named, WithOptions, With), the options,
  and the admission pipeline \<^verbatim>\<open>Logger.check\<close>.

  Conventions of the embedding.
  \<^item> Loggers are handled through pointers in the source. They live in an explicit heap
    (a list of Logger values, the address being the index); a pointer is \<open>nil_ptr\<close> or
    an address. Reading or writing through a pointer that holds no Logger is the
    run-time panic of Go, the value \<open>Inl NilPointerDereference\<close>.
  \<^item> The sink (zapcore.Core), the clock, the write syncers and the stack capture are
    capabilities outside the source. Their methods are the fields of a record
    \<open>zapcore\<close> which every operation takes as its first argument. The world they act on
    is the trace of the calls made so far: every call of a capability appends one event,
    and the answer of a capability is a function of its arguments and of the trace before
    the call, so a capability may answer differently each time it is asked.
  \<^item> Interface-typed fields hold a value, except where the source itself tests for nil
    (the core given to New, the onFatal hook, the record returned by Core.Check).
  \<^item> Go's int is taken as 64 bits wide, with wrapping addition; a uintptr likewise.
  \<^item> Left out: the presets NewProduction, NewDevelopment and NewExample (they build on
    Config and on encoders, outside the source), Sync, and the level methods Debug to
    Fatal, which pass the result of \<^verbatim>\<open>check\<close> to CheckedEntry.Write.
\<close>

subsection \<open>Levels\<close>

text \<open>zapcore.Level is an int8; the comparison of levels is the signed one.\<close>

type_synonym Level = "8 word"

text \<open>
  Modelled from the spec: the level constants of zapcore, which are not under src/.
  The spec orders the severities debug, info, warn, error, dev-panic, panic, fatal and
  puts the must-always-proceed threshold at dev-panic; the numerals are those of
  zapcore's Level, from DebugLevel = -1 to FatalLevel = 5.
\<close>

definition DebugLevel :: Level where "DebugLevel = - 1"
definition InfoLevel :: Level where "InfoLevel = 0"
definition WarnLevel :: Level where "WarnLevel = 1"
definition ErrorLevel :: Level where "ErrorLevel = 2"
definition DPanicLevel :: Level where "DPanicLevel = 3"
definition PanicLevel :: Level where "PanicLevel = 4"
definition FatalLevel :: Level where "FatalLevel = 5"

text \<open>
  Modelled from the spec: a LevelEnabler is "a severity-threshold-or-predicate". A Level
  used as a LevelEnabler enables every level at or above itself; any other implementation
  is a predicate on levels.
\<close>

datatype LevelEnabler = LevelThreshold Level | LevelEnablerFunc "Level \<Rightarrow> bool"

fun Enabled_le :: "LevelEnabler \<Rightarrow> Level \<Rightarrow> bool" where
  "Enabled_le (LevelThreshold l) lvl = (l \<le>s lvl)"
| "Enabled_le (LevelEnablerFunc p) lvl = p lvl"

subsection \<open>Terminal actions\<close>

text \<open>
  Modelled from the spec: a terminal action is "one of: none, panic-after-write,
  fatal-process-exit-after-write, per-task-abort-after-write, or a user-supplied custom
  action". The first four are zapcore's CheckWriteAction; a CheckWriteHook is such an
  action or a custom hook, identified by a number. A nil hook is \<open>None\<close>.
\<close>

datatype CheckWriteAction = WriteThenNoop | WriteThenGoexit | WriteThenPanic | WriteThenFatal

datatype CheckWriteHook = Action CheckWriteAction | CustomHook nat

subsection \<open>Entries and admission records\<close>

type_synonym Time = int

datatype WriteSyncer = LockedStderr | DiscardSyncer | UserSyncer nat

datatype Clock = DefaultClock | UserClock nat

type_synonym Field = "string \<times> string"

record EntryCaller =
  Defined :: bool
  PC :: "64 word"
  File :: string
  Line :: int
  Function :: string

definition noCaller :: EntryCaller where
  "noCaller = \<lparr>Defined = False, PC = 0, File = [], Line = 0, Function = []\<rparr>"

record Entry =
  Level :: Level
  Time :: Time
  LoggerName :: string
  Message :: string
  Caller :: EntryCaller
  Stack :: string

text \<open>
  Modelled from the spec: the admission record (zapcore.CheckedEntry, not under src/)
  carries the entry, "the entry's resolved write destination for internal-error
  reporting", the caller location and the stack trace (both fields of the entry it
  embeds) and the resolved terminal action. A pointer to a record is an option: \<open>None\<close>
  is the nil record.
\<close>

record CheckedEntry =
  Entry :: Entry
  ErrorOutput_ce :: "WriteSyncer option"
  after :: "CheckWriteHook option"

text \<open>
  Modelled from the spec: CheckedEntry.After and CheckedEntry.Should (not under src/)
  "force the action onto the record, synthesizing a record if needed": a nil receiver is
  replaced by a minimal record that holds the entry and nothing else, and the action of
  the record is overwritten. The result is never nil.
\<close>

definition After :: "CheckedEntry option \<Rightarrow> Entry \<Rightarrow> CheckWriteHook \<Rightarrow> CheckedEntry" where
  "After ce ent hook =
     (case ce of
        None \<Rightarrow> \<lparr>Entry = ent, ErrorOutput_ce = None, after = Some hook\<rparr>
      | Some r \<Rightarrow> r\<lparr>after := Some hook\<rparr>)"

definition Should :: "CheckedEntry option \<Rightarrow> Entry \<Rightarrow> CheckWriteAction \<Rightarrow> CheckedEntry" where
  "Should ce ent should = After ce ent (Action should)"

subsection \<open>Stack capture\<close>

text \<open>
  Modelled from the spec: the capture session (captureStacktrace and its stacktrace
  type, not under src/) "produces a lazy, finite, non-restartable sequence of call
  frames". A session is the list of its frames: Count is the length of the list, and the
  first Next gives the head of the list and whether more frames follow. A frame has the
  fields of runtime.Frame that the pipeline reads.
\<close>

record Frame =
  frame_PC :: "64 word"
  frame_File :: string
  frame_Line :: int
  frame_Function :: string

datatype stacktraceDepth = stacktraceFirst | stacktraceFull

subsection \<open>The Logger and the capabilities it consumes\<close>

record 'c Logger =
  core :: 'c
  development :: bool
  addCaller :: bool
  onFatal :: "CheckWriteHook option"
  name :: string
  errorOutput :: WriteSyncer
  addStack :: LevelEnabler
  callerSkip :: "64 word"
  clock :: Clock

text \<open>
  The events of a trace: one for each call of a capability, with its arguments. A report
  written with fmt.Fprintf is recorded by its destination, its format and its arguments.
\<close>

datatype fmtarg = ArgTime Time | ArgError string

datatype 'c event =
    CallEnabled 'c Level
  | CallNow Clock
  | CallCheck 'c Entry
  | CallCapture "64 word" stacktraceDepth
  | CallFree
  | CallFprintf WriteSyncer string "fmtarg list"
  | CallSync WriteSyncer

text \<open>
  The capabilities, none of them under src/. \<open>core_Enabled\<close>, \<open>core_Check\<close> and
  \<open>core_With\<close> are the methods of zapcore.Core; \<open>clock_Now\<close> is Clock.Now;
  \<open>captureStacktrace\<close> gives the frames of the capture session (its Count is their
  number); \<open>FormatFrame\<close> and \<open>FormatStack\<close> append to the formatting buffer
  (the pooled buffer is a local string: it starts empty and is released on return).
  \<open>RegisterHooks\<close>, \<open>NewIncreaseLevelCore\<close> (an error message or a core) and
  \<open>NewNopCore\<close> are the functions of zapcore that the options and NewNop call.
\<close>

record 'c zapcore =
  core_Enabled :: "'c \<Rightarrow> Level \<Rightarrow> 'c event list \<Rightarrow> bool"
  core_Check :: "'c \<Rightarrow> Entry \<Rightarrow> 'c event list \<Rightarrow> CheckedEntry option"
  core_With :: "'c \<Rightarrow> Field list \<Rightarrow> 'c"
  clock_Now :: "Clock \<Rightarrow> 'c event list \<Rightarrow> Time"
  captureStacktrace :: "64 word \<Rightarrow> stacktraceDepth \<Rightarrow> 'c event list \<Rightarrow> Frame list"
  FormatFrame :: "string \<Rightarrow> Frame \<Rightarrow> string"
  FormatStack :: "string \<Rightarrow> Frame list \<Rightarrow> string"
  RegisterHooks :: "'c \<Rightarrow> (Entry \<Rightarrow> string option) list \<Rightarrow> 'c"
  NewIncreaseLevelCore :: "'c \<Rightarrow> LevelEnabler \<Rightarrow> string + 'c"
  NewNopCore :: "'c"

datatype panic = NilPointerDereference

section \<open>The admission pipeline: Logger.check\<close>

definition callerSkipOffset :: "64 word" where
  "callerSkipOffset = 2"

text \<open>
  The terminal behaviour, the \<^verbatim>\<open>switch ent.Level\<close> of the source: the record after the
  switch, nil (\<open>None\<close>) only when no case forces an action on a nil record.
\<close>

definition terminal :: "'c Logger \<Rightarrow> Entry \<Rightarrow> CheckedEntry option \<Rightarrow> CheckedEntry option" where
  "terminal log ent ce =
     (if Level ent = PanicLevel then Some (Should ce ent WriteThenPanic)
      else if Level ent = FatalLevel then
        (let onFatal1 = (case onFatal log of
                           None \<Rightarrow> Action WriteThenFatal
                         | Some hook \<Rightarrow>
                             if hook = Action WriteThenNoop then Action WriteThenFatal else hook)
         in Some (After ce ent onFatal1))
      else if Level ent = DPanicLevel then
        (if development log then Some (Should ce ent WriteThenPanic) else ce)
      else ce)"

text \<open>
  The annotation of a record that will be written, the source from
  \<^verbatim>\<open>ce.ErrorOutput = log.errorOutput\<close> to the end. The capture session is released on
  every path that acquired it (the deferred \<^verbatim>\<open>stack.Free()\<close>), last of all.
\<close>

definition annotate ::
  "'c zapcore \<Rightarrow> 'c Logger \<Rightarrow> Entry \<Rightarrow> CheckedEntry \<Rightarrow> 'c event list \<Rightarrow> CheckedEntry \<times> 'c event list" where
  "annotate zc log ent ce0 tr =
     (let ce1 = ce0\<lparr>ErrorOutput_ce := Some (errorOutput log)\<rparr>;
          addStack1 = Enabled_le (addStack log) (Level (Entry ce1))
      in if \<not> addCaller log \<and> \<not> addStack1 then (ce1, tr)
         else
           let stackDepth = (if addStack1 then stacktraceFull else stacktraceFirst);
               skip = callerSkip log + callerSkipOffset;
               stack = captureStacktrace zc skip stackDepth tr;
               tr1 = tr @ [CallCapture skip stackDepth]
           in case stack of
                [] \<Rightarrow>
                  (if addCaller log
                   then (ce1, tr1 @ [CallFprintf (errorOutput log)
                                       (''%v Logger.check error: failed to get caller'' @ [CHR 0x0A])
                                       [ArgTime (Time ent)],
                                     CallSync (errorOutput log),
                                     CallFree])
                   else (ce1, tr1 @ [CallFree]))
              | frame # rest \<Rightarrow>
                  (let more = (rest \<noteq> []);
                       ce2 = (if addCaller log
                              then ce1\<lparr>Entry := (Entry ce1)\<lparr>Caller :=
                                     \<lparr>Defined = (frame_PC frame \<noteq> 0), PC = frame_PC frame,
                                      File = frame_File frame, Line = frame_Line frame,
                                      Function = frame_Function frame\<rparr>\<rparr>\<rparr>
                              else ce1);
                       ce3 = (if addStack1
                              then (let buffer0 = FormatFrame zc [] frame;
                                        buffer1 = (if more then FormatStack zc buffer0 rest else buffer0)
                                    in ce2\<lparr>Entry := (Entry ce2)\<lparr>Stack := buffer1\<rparr>\<rparr>)
                              else ce2)
                   in (ce3, tr1 @ [CallFree])))"

definition check ::
  "'c zapcore \<Rightarrow> 'c Logger \<Rightarrow> Level \<Rightarrow> string \<Rightarrow> 'c event list
     \<Rightarrow> panic + (CheckedEntry option \<times> 'c event list)" where
  "check zc log lvl msg tr0 =
     (if lvl <s DPanicLevel \<and> \<not> core_Enabled zc (core log) lvl tr0
      then Inr (None, tr0 @ [CallEnabled (core log) lvl])
      else
        let tr1 = (if lvl <s DPanicLevel then tr0 @ [CallEnabled (core log) lvl] else tr0);
            ent = \<lparr>Level = lvl, Time = clock_Now zc (clock log) tr1, LoggerName = name log,
                   Message = msg, Caller = noCaller, Stack = []\<rparr>;
            tr2 = tr1 @ [CallNow (clock log)];
            ce = core_Check zc (core log) ent tr2;
            tr3 = tr2 @ [CallCheck (core log) ent];
            willWrite = (ce \<noteq> None);
            ce' = terminal log ent ce
        in if \<not> willWrite then Inr (ce', tr3)
           else case ce' of
                  None \<Rightarrow> Inl NilPointerDereference
                | Some r \<Rightarrow> (case annotate zc log ent r tr3 of (r', tr4) \<Rightarrow> Inr (Some r', tr4)))"

section \<open>Loggers on the heap\<close>

datatype ptr = nil_ptr | Addr nat

record 'c state =
  heap :: "'c Logger list"
  trace :: "'c event list"

definition andThen :: "panic + 'a \<Rightarrow> ('a \<Rightarrow> panic + 'b) \<Rightarrow> panic + 'b" where
  "andThen m f = (case m of Inl e \<Rightarrow> Inl e | Inr x \<Rightarrow> f x)"

definition deref :: "'c state \<Rightarrow> ptr \<Rightarrow> panic + 'c Logger" where
  "deref st p =
     (case p of
        nil_ptr \<Rightarrow> Inl NilPointerDereference
      | Addr a \<Rightarrow> if a < length (heap st) then Inr (heap st ! a) else Inl NilPointerDereference)"

definition assign :: "ptr \<Rightarrow> ('c Logger \<Rightarrow> 'c Logger) \<Rightarrow> 'c state \<Rightarrow> panic + 'c state" where
  "assign p f st =
     (case p of
        nil_ptr \<Rightarrow> Inl NilPointerDereference
      | Addr a \<Rightarrow> if a < length (heap st)
                  then Inr (st\<lparr>heap := (heap st)[a := f (heap st ! a)]\<rparr>)
                  else Inl NilPointerDereference)"

definition alloc :: "'c Logger \<Rightarrow> 'c state \<Rightarrow> ptr \<times> 'c state" where
  "alloc L st = (Addr (length (heap st)), st\<lparr>heap := heap st @ [L]\<rparr>)"

definition clone :: "ptr \<Rightarrow> 'c state \<Rightarrow> panic + (ptr \<times> 'c state)" where
  "clone log st = andThen (deref st log) (\<lambda>L. Inr (alloc L st))"

subsection \<open>Options\<close>

text \<open>
  An Option is an optionFunc, a closure over the arguments of the function that built
  it; only this package can make one. The datatype has one constructor for each of
  these functions, and \<open>optionFunc\<close> gives the body of each closure, acting on the Logger
  it is applied to.
\<close>

datatype 'c Option =
    WrapCore "'c \<Rightarrow> 'c"
  | Hooks "(Entry \<Rightarrow> string option) list"
  | Fields "Field list"
  | ErrorOutput WriteSyncer
  | Development
  | WithCaller bool
  | AddCallerSkip "64 word"
  | AddStacktrace LevelEnabler
  | IncreaseLevel LevelEnabler
  | WithFatalHook "CheckWriteHook option"
  | WithClock Clock

definition AddCaller :: "'c Option" where
  "AddCaller = WithCaller True"

definition OnFatal :: "CheckWriteAction \<Rightarrow> 'c Option" where
  "OnFatal action = WithFatalHook (Some (Action action))"

fun optionFunc ::
  "'c zapcore \<Rightarrow> 'c Option \<Rightarrow> 'c Logger \<Rightarrow> 'c event list \<Rightarrow> 'c Logger \<times> 'c event list" where
  "optionFunc zc (WrapCore f) log tr = (log\<lparr>core := f (core log)\<rparr>, tr)"
| "optionFunc zc (Hooks hooks) log tr = (log\<lparr>core := RegisterHooks zc (core log) hooks\<rparr>, tr)"
| "optionFunc zc (Fields fs) log tr = (log\<lparr>core := core_With zc (core log) fs\<rparr>, tr)"
| "optionFunc zc (ErrorOutput w) log tr = (log\<lparr>errorOutput := w\<rparr>, tr)"
| "optionFunc zc Development log tr = (log\<lparr>development := True\<rparr>, tr)"
| "optionFunc zc (WithCaller enabled) log tr = (log\<lparr>addCaller := enabled\<rparr>, tr)"
| "optionFunc zc (AddCallerSkip skip) log tr = (log\<lparr>callerSkip := callerSkip log + skip\<rparr>, tr)"
| "optionFunc zc (AddStacktrace lvl) log tr = (log\<lparr>addStack := lvl\<rparr>, tr)"
| "optionFunc zc (IncreaseLevel lvl) log tr =
     (case NewIncreaseLevelCore zc (core log) lvl of
        Inl err \<Rightarrow>
          (log, tr @ [CallFprintf (errorOutput log)
                        (''failed to IncreaseLevel: %v'' @ [CHR 0x0A]) [ArgError err]])
      | Inr core' \<Rightarrow> (log\<lparr>core := core'\<rparr>, tr))"
| "optionFunc zc (WithFatalHook hook) log tr = (log\<lparr>onFatal := hook\<rparr>, tr)"
| "optionFunc zc (WithClock clock') log tr = (log\<lparr>clock := clock'\<rparr>, tr)"

text \<open>\<^verbatim>\<open>opt.apply(log)\<close>: the closure runs on the Logger that \<open>log\<close> points to.\<close>

definition apply_opt :: "'c zapcore \<Rightarrow> 'c Option \<Rightarrow> ptr \<Rightarrow> 'c state \<Rightarrow> panic + 'c state" where
  "apply_opt zc opt log st =
     andThen (deref st log) (\<lambda>L.
       case optionFunc zc opt L (trace st) of
         (L', tr') \<Rightarrow> andThen (assign log (\<lambda>_. L') st) (\<lambda>st'. Inr (st'\<lparr>trace := tr'\<rparr>)))"

subsection \<open>Constructors and configuration-producing methods\<close>

definition NewNop :: "'c zapcore \<Rightarrow> 'c state \<Rightarrow> ptr \<times> 'c state" where
  "NewNop zc st =
     alloc \<lparr>core = NewNopCore zc, development = False, addCaller = False, onFatal = None,
            name = [], errorOutput = DiscardSyncer,
            addStack = LevelThreshold (FatalLevel + 1), callerSkip = 0,
            clock = DefaultClock\<rparr> st"

text \<open>
  A SugaredLogger (not under src/) is built from the pointer to its base Logger; the
  struct itself is a value here.
\<close>

datatype SugaredLogger = SugaredLogger (base: ptr)

definition Sugar :: "ptr \<Rightarrow> 'c state \<Rightarrow> panic + (SugaredLogger \<times> 'c state)" where
  "Sugar log st =
     andThen (clone log st) (\<lambda>(core', st1).
       andThen (assign core' (\<lambda>l. l\<lparr>callerSkip := callerSkip l + 2\<rparr>) st1) (\<lambda>st2.
         Inr (SugaredLogger core', st2)))"

definition Named :: "ptr \<Rightarrow> string \<Rightarrow> 'c state \<Rightarrow> panic + (ptr \<times> 'c state)" where
  "Named log s st =
     (if s = [] then Inr (log, st)
      else
        andThen (clone log st) (\<lambda>(l, st1).
          andThen (deref st1 log) (\<lambda>L.
            andThen
              (if name L = [] then assign l (\<lambda>x. x\<lparr>name := s\<rparr>) st1
               else assign l (\<lambda>x. x\<lparr>name := name x @ ''.'' @ s\<rparr>) st1)
              (\<lambda>st2. Inr (l, st2)))))"

fun applyAll :: "'c zapcore \<Rightarrow> 'c Option list \<Rightarrow> ptr \<Rightarrow> 'c state \<Rightarrow> panic + 'c state" where
  "applyAll zc [] c st = Inr st"
| "applyAll zc (opt # opts) c st = andThen (apply_opt zc opt c st) (applyAll zc opts c)"

definition WithOptions ::
  "'c zapcore \<Rightarrow> ptr \<Rightarrow> 'c Option list \<Rightarrow> 'c state \<Rightarrow> panic + (ptr \<times> 'c state)" where
  "WithOptions zc log opts st =
     andThen (clone log st) (\<lambda>(c, st1).
       andThen (applyAll zc opts c st1) (\<lambda>st2. Inr (c, st2)))"

definition New ::
  "'c zapcore \<Rightarrow> 'c option \<Rightarrow> 'c Option list \<Rightarrow> 'c state \<Rightarrow> panic + (ptr \<times> 'c state)" where
  "New zc core' options st =
     (case core' of
        None \<Rightarrow> Inr (NewNop zc st)
      | Some c \<Rightarrow>
          (case alloc \<lparr>core = c, development = False, addCaller = False, onFatal = None,
                        name = [], errorOutput = LockedStderr,
                        addStack = LevelThreshold (FatalLevel + 1), callerSkip = 0,
                        clock = DefaultClock\<rparr> st of
             (log, st1) \<Rightarrow> WithOptions zc log options st1))"

definition With ::
  "'c zapcore \<Rightarrow> ptr \<Rightarrow> Field list \<Rightarrow> 'c state \<Rightarrow> panic + (ptr \<times> 'c state)" where
  "With zc log fs st =
     (if length fs = 0 then Inr (log, st)
      else
        andThen (clone log st) (\<lambda>(l, st1).
          andThen (assign l (\<lambda>x. x\<lparr>core := core_With zc (core x) fs\<rparr>) st1) (\<lambda>st2.
            Inr (l, st2))))"

definition Core :: "'c state \<Rightarrow> ptr \<Rightarrow> panic + 'c" where
  "Core st log = andThen (deref st log) (\<lambda>L. Inr (core L))"

text \<open>
  The exported Check and the level methods reach the pipeline through the pointer: the
  receiver is read, and \<open>check\<close> runs on the Logger found there with the trace of the
  state.
\<close>

definition Check ::
  "'c zapcore \<Rightarrow> ptr \<Rightarrow> Level \<Rightarrow> string \<Rightarrow> 'c state
     \<Rightarrow> panic + (CheckedEntry option \<times> 'c state)" where
  "Check zc log lvl msg st =
     andThen (deref st log) (\<lambda>L.
       andThen (check zc L lvl msg (trace st)) (\<lambda>(ce, tr'). Inr (ce, st\<lparr>trace := tr'\<rparr>)))"

section \<open>Notions used to state the properties\<close>

text \<open>The Logger behind the pointer that an operation returned, if it returned one.\<close>

definition returned :: "panic + (ptr \<times> 'c state) \<Rightarrow> 'c Logger option" where
  "returned res =
     (case res of
        Inl e \<Rightarrow> None
      | Inr (p, st') \<Rightarrow> (case deref st' p of Inl e \<Rightarrow> None | Inr L \<Rightarrow> Some L))"

text \<open>A pointer is fresh for a state when it points to no Logger allocated in that state.\<close>

definition fresh :: "'c state \<Rightarrow> ptr \<Rightarrow> bool" where
  "fresh st p = (case p of nil_ptr \<Rightarrow> False | Addr a \<Rightarrow> length (heap st) \<le> a)"

text \<open>
  The application of options as section 4.3 of the specification words it: "a sequence
  of options left-to-right against one working copy". The working copy is a Logger value
  here, and the trace is threaded through; \<open>WithOptions\<close> is compared with it.
\<close>

primrec inOrder ::
  "'c zapcore \<Rightarrow> 'c Option list \<Rightarrow> 'c Logger \<Rightarrow> 'c event list \<Rightarrow> 'c Logger \<times> 'c event list" where
  "inOrder zc [] L tr = (L, tr)"
| "inOrder zc (opt # opts) L tr =
     (case optionFunc zc opt L tr of (L', tr') \<Rightarrow> inOrder zc opts L' tr')"

text \<open>The caller-skip depth that one option adds.\<close>

fun skipOf :: "'c Option \<Rightarrow> 64 word" where
  "skipOf (AddCallerSkip skip) = skip"
| "skipOf opt = 0"

text \<open>An internal-error report to a given write syncer.\<close>

fun isReport :: "WriteSyncer \<Rightarrow> 'c event \<Rightarrow> bool" where
  "isReport w (CallFprintf w' fmt args) = (w' = w)"
| "isReport w ev = False"

subsection \<open>Example capabilities and loggers\<close>

text \<open>
  Two sinks over cores numbered by naturals, with a clock that reads the number of calls
  made so far and a stack capture that finds no frame. \<open>silentSink\<close> enables no level
  and admits no entry; \<open>openSink\<close> enables every level and admits every entry with a
  record that holds the entry and no action.
\<close>

definition silentSink :: "nat zapcore" where
  "silentSink =
     \<lparr>core_Enabled = (\<lambda>c lvl tr. False),
      core_Check = (\<lambda>c ent tr. None),
      core_With = (\<lambda>c fs. c + length fs),
      clock_Now = (\<lambda>k tr. int (length tr)),
      captureStacktrace = (\<lambda>skip depth tr. []),
      FormatFrame = (\<lambda>b f. b @ frame_Function f),
      FormatStack = (\<lambda>b fs. b @ concat (map frame_Function fs)),
      RegisterHooks = (\<lambda>c hooks. c),
      NewIncreaseLevelCore = (\<lambda>c lvl. Inr c),
      NewNopCore = 0\<rparr>"

definition openSink :: "nat zapcore" where
  "openSink = silentSink
     \<lparr>core_Enabled := (\<lambda>c lvl tr. True),
      core_Check := (\<lambda>c ent tr. Some \<lparr>Entry = ent, ErrorOutput_ce = None, after = None\<rparr>)\<rparr>"

definition service :: "nat Logger" where
  "service =
     \<lparr>core = 1, development = False, addCaller = True, onFatal = Some (Action WriteThenNoop),
      name = ''svc'', errorOutput = UserSyncer 0, addStack = LevelThreshold (FatalLevel + 1),
      callerSkip = 0, clock = UserClock 0\<rparr>"

definition unnamed :: "nat Logger" where
  "unnamed = service\<lparr>name := [], onFatal := None, development := True\<rparr>"

text \<open>\<open>mutedSink\<close> enables every level and still admits no entry, as a sampling sink may.\<close>

definition mutedSink :: "nat zapcore" where
  "mutedSink = silentSink\<lparr>core_Enabled := (\<lambda>c lvl tr. True)\<rparr>"

definition world :: "nat state" where
  "world = \<lparr>heap = [service, unnamed], trace = []\<rparr>"

section \<open>Facts about the pipeline\<close>

lemma Level_simps:
  "\<not> FatalLevel <s DPanicLevel" "\<not> PanicLevel <s DPanicLevel" "\<not> DPanicLevel <s DPanicLevel"
  "FatalLevel \<noteq> PanicLevel" "DPanicLevel \<noteq> PanicLevel" "DPanicLevel \<noteq> FatalLevel"
  "DebugLevel <s DPanicLevel" "InfoLevel <s DPanicLevel" "ErrorLevel <s DPanicLevel"
  by (simp_all add: FatalLevel_def PanicLevel_def DPanicLevel_def DebugLevel_def InfoLevel_def
      ErrorLevel_def word_sless_alt)

lemma annotate_after: "after (fst (annotate zc log ent r tr)) = after r"
  by (simp add: annotate_def Let_def split: list.splits)

lemma annotate_afterD: "annotate zc log ent r tr = (r', tr') \<Longrightarrow> after r' = after r"
  using annotate_after [of zc log ent r tr] by simp

lemma annotate_no_frames:
  "addCaller log \<Longrightarrow>
   captureStacktrace zc (callerSkip log + callerSkipOffset)
     (if Enabled_le (addStack log) (Level (Entry r)) then stacktraceFull else stacktraceFirst) tr = [] \<Longrightarrow>
   annotate zc log ent r tr =
     (r\<lparr>ErrorOutput_ce := Some (errorOutput log)\<rparr>,
      tr @ [CallCapture (callerSkip log + callerSkipOffset)
              (if Enabled_le (addStack log) (Level (Entry r)) then stacktraceFull else stacktraceFirst),
            CallFprintf (errorOutput log)
              (''%v Logger.check error: failed to get caller'' @ [CHR 0x0A]) [ArgTime (Time ent)],
            CallSync (errorOutput log), CallFree])"
  by (simp add: annotate_def Let_def split: list.splits)

lemma terminal_Some:
  "terminal log ent (Some r0) = Some r \<Longrightarrow> Entry r = Entry r0 \<and> ErrorOutput_ce r = ErrorOutput_ce r0"
  by (auto simp add: terminal_def After_def Should_def Let_def split: if_splits option.splits)

lemma terminal_Some_ex: "\<exists>r. terminal log ent (Some r0) = Some r"
  by (auto simp add: terminal_def After_def Should_def Let_def split: if_splits option.splits)

lemma terminal_None:
  "terminal log ent None = Some r \<Longrightarrow> Entry r = ent \<and> ErrorOutput_ce r = None"
  by (auto simp add: terminal_def After_def Should_def Let_def split: if_splits option.splits)

section \<open>Facts about the heap operations\<close>

lemma derefD:
  "deref st log = Inr L \<Longrightarrow> \<exists>a. log = Addr a \<and> a < length (heap st) \<and> heap st ! a = L"
  by (cases log) (auto simp add: deref_def split: if_splits)

lemma deref_Addr:
  "a < length (heap st) \<Longrightarrow> deref st (Addr a) = Inr (heap st ! a)"
  by (simp add: deref_def)

lemma clone_run:
  "deref st log = Inr L \<Longrightarrow>
   clone log st = Inr (Addr (length (heap st)), st\<lparr>heap := heap st @ [L]\<rparr>)"
  by (simp add: clone_def andThen_def alloc_def)

lemma optionFunc_callerSkip:
  "callerSkip (fst (optionFunc zc opt L tr)) = callerSkip L + skipOf opt"
  by (cases opt) (auto split: sum.splits)

lemma inOrder_callerSkip:
  "callerSkip (fst (inOrder zc opts L tr)) = callerSkip L + sum_list (map skipOf opts)"
proof (induction opts arbitrary: L tr)
  case Nil
  show ?case by simp
next
  case (Cons opt opts)
  obtain L' tr' where step: "optionFunc zc opt L tr = (L', tr')"
    by (cases "optionFunc zc opt L tr")
  then have "callerSkip L' = callerSkip L + skipOf opt"
    using optionFunc_callerSkip [of zc opt L tr] by simp
  with step Cons.IH [of L' tr'] show ?case
    by (simp add: add.assoc)
qed

lemma inOrder_append:
  "inOrder zc (xs @ ys) L tr = (case inOrder zc xs L tr of (L', tr') \<Rightarrow> inOrder zc ys L' tr')"
  by (induction xs arbitrary: L tr) (auto split: prod.splits)

lemma apply_opt_run:
  "a < length (heap st) \<Longrightarrow>
   apply_opt zc opt (Addr a) st =
     Inr (st\<lparr>heap := (heap st)[a := fst (optionFunc zc opt (heap st ! a) (trace st))],
             trace := snd (optionFunc zc opt (heap st ! a) (trace st))\<rparr>)"
  by (simp add: apply_opt_def andThen_def deref_def assign_def split: prod.splits)

lemma applyAll_run:
  "a < length (heap st) \<Longrightarrow>
   applyAll zc opts (Addr a) st =
     Inr (st\<lparr>heap := (heap st)[a := fst (inOrder zc opts (heap st ! a) (trace st))],
             trace := snd (inOrder zc opts (heap st ! a) (trace st))\<rparr>)"
proof (induction opts arbitrary: st)
  case Nil
  then show ?case by simp
next
  case (Cons opt opts)
  let ?st1 = "st\<lparr>heap := (heap st)[a := fst (optionFunc zc opt (heap st ! a) (trace st))],
                 trace := snd (optionFunc zc opt (heap st ! a) (trace st))\<rparr>"
  have valid: "a < length (heap ?st1)"
    using Cons.prems by simp
  show ?case
    using Cons.prems Cons.IH [OF valid]
    by (simp add: apply_opt_run andThen_def split: prod.splits)
qed

lemma WithOptions_run:
  assumes "deref st log = Inr L"
  shows "WithOptions zc log opts st =
     Inr (Addr (length (heap st)),
          st\<lparr>heap := heap st @ [fst (inOrder zc opts L (trace st))],
             trace := snd (inOrder zc opts L (trace st))\<rparr>)"
  using assms
  by (simp add: WithOptions_def clone_run andThen_def applyAll_run)

lemma Named_run:
  assumes "deref st log = Inr L" and "s \<noteq> []"
  shows "Named log s st =
     Inr (Addr (length (heap st)),
          st\<lparr>heap := heap st @ [L\<lparr>name := (if name L = [] then s else name L @ ''.'' @ s)\<rparr>]\<rparr>)"
proof -
  obtain a where a: "log = Addr a" "a < length (heap st)" "heap st ! a = L"
    using derefD [OF assms(1)] by blast
  have again: "deref (st\<lparr>heap := heap st @ [L]\<rparr>) log = Inr L"
    using a by (simp add: deref_def nth_append)
  show ?thesis
    using assms again
    by (simp add: Named_def clone_run andThen_def assign_def)
qed

lemma With_run:
  assumes "deref st log = Inr L" and "fs \<noteq> []"
  shows "With zc log fs st =
     Inr (Addr (length (heap st)),
          st\<lparr>heap := heap st @ [L\<lparr>core := core_With zc (core L) fs\<rparr>]\<rparr>)"
  using assms by (simp add: With_def clone_run andThen_def assign_def)

lemma Sugar_run:
  assumes "deref st log = Inr L"
  shows "Sugar log st =
     Inr (SugaredLogger (Addr (length (heap st))),
          st\<lparr>heap := heap st @ [L\<lparr>callerSkip := callerSkip L + 2\<rparr>]\<rparr>)"
  using assms by (simp add: Sugar_def clone_run andThen_def assign_def)

lemma deref_grown:
  "deref st log = Inr L \<Longrightarrow> deref (st\<lparr>heap := heap st @ [L'], trace := tr\<rparr>) log = Inr L"
  by (cases log) (auto simp add: deref_def nth_append split: if_splits)

lemma deref_grown': 
  "deref st log = Inr L \<Longrightarrow> deref (st\<lparr>heap := heap st @ [L']\<rparr>) log = Inr L"
  by (cases log) (auto simp add: deref_def nth_append split: if_splits)

lemma deref_new:
  "deref (st\<lparr>heap := heap st @ [L'], trace := tr\<rparr>) (Addr (length (heap st))) = Inr L'"
  "deref (st\<lparr>heap := heap st @ [L']\<rparr>) (Addr (length (heap st))) = Inr L'"
  by (simp_all add: deref_def)

lemma returned_new:
  "returned (Inr (Addr (length (heap st)), st\<lparr>heap := heap st @ [L'], trace := tr\<rparr>)) = Some L'"
  "returned (Inr (Addr (length (heap st)), st\<lparr>heap := heap st @ [L']\<rparr>)) = Some L'"
  by (simp_all add: returned_def deref_def)

lemma returned_WithOptions:
  "deref st log = Inr L \<Longrightarrow>
   returned (WithOptions zc log opts st) = Some (fst (inOrder zc opts L (trace st)))"
  by (simp add: WithOptions_run returned_new)

lemma inOrder_snoc:
  "fst (inOrder zc (opts @ [opt]) L tr) =
     fst (optionFunc zc opt (fst (inOrder zc opts L tr)) (snd (inOrder zc opts L tr)))"
  by (simp add: inOrder_append split: prod.splits)

lemma take_grown:
  "take (length (heap st)) (heap (st\<lparr>heap := heap st @ [L'], trace := tr\<rparr>)) = heap st"
  "take (length (heap st)) (heap (st\<lparr>heap := heap st @ [L']\<rparr>)) = heap st"
  by simp_all

lemma fresh_new: "fresh st (Addr (length (heap st)))"
  by (simp add: fresh_def)

lemma Check_same:
  "deref st' log = deref st log \<Longrightarrow> trace st' = trace st \<Longrightarrow>
   map_sum id fst (Check zc log lvl msg st') = map_sum id fst (Check zc log lvl msg st)"
  by (simp add: Check_def andThen_def split: sum.splits prod.splits)

lemma returned_receiver: "deref st log = Inr L \<Longrightarrow> returned (Inr (log, st)) = Some L"
  by (simp add: returned_def)

lemma Named_returned:
  assumes "deref st log = Inr L" and "s \<noteq> []"
  shows "returned (Named log s st) =
           Some (L\<lparr>name := (if name L = [] then s else name L @ ''.'' @ s)\<rparr>)"
  using Named_run [OF assms] by (simp add: returned_new)

section \<open>The claims\<close>

text \<open>
  C2. For every level strictly below DPanicLevel (in the signed order of int8) that the
  sink reports disabled, the pipeline returns nil, and the only call it makes to a
  capability is that one query \<open>Enabled\<close>: the trace grows by this single event, so the
  clock is not read (no entry is built, since an entry needs its time), the sink's Check
  is not called, and no stack is captured. This holds for every sink, clock and capture.
\<close>

theorem check_disabled_returns_nothing:
  assumes "lvl <s DPanicLevel" and "\<not> core_Enabled zc (core log) lvl tr"
  shows "check zc log lvl msg tr = Inr (None, tr @ [CallEnabled (core log) lvl])"
  using assms by (simp add: check_def)

theorem check_disabled_returns_nothing_witness:
  "DebugLevel <s DPanicLevel \<and> \<not> core_Enabled silentSink (core service) DebugLevel [] \<and>
   check silentSink service DebugLevel ''starting'' [] = Inr (None, [CallEnabled 1 DebugLevel])"
proof -
  have below: "DebugLevel <s DPanicLevel"
    by (simp add: DebugLevel_def DPanicLevel_def word_sless_alt)
  have off: "\<not> core_Enabled silentSink (core service) DebugLevel []"
    by (simp add: silentSink_def)
  show ?thesis
    using below off check_disabled_returns_nothing [OF below off, of "''starting''"]
    by (simp add: service_def)
qed

text \<open>
  C1. A call of the pipeline at FatalLevel always returns a record (never nil, never a
  panic), and the action of the record is the hook configured as onFatal, except that a
  hook that is unset (nil) or is WriteThenNoop is replaced by WriteThenFatal. When the
  sink's Check returned nothing the record is a synthesized one: it holds the entry and
  the action, and nothing else; the trace then ends with the call of Check.
\<close>

theorem check_Fatal_forces_hook:
  "let ent = \<lparr>Level = FatalLevel, Time = clock_Now zc (clock log) tr, LoggerName = name log,
               Message = msg, Caller = noCaller, Stack = []\<rparr>
   in \<exists>r tr'. check zc log FatalLevel msg tr = Inr (Some r, tr') \<and>
        (onFatal log = None \<longrightarrow> after r = Some (Action WriteThenFatal)) \<and>
        (onFatal log = Some (Action WriteThenNoop) \<longrightarrow> after r = Some (Action WriteThenFatal)) \<and>
        (\<forall>hook. onFatal log = Some hook \<and> hook \<noteq> Action WriteThenNoop \<longrightarrow> after r = Some hook) \<and>
        (core_Check zc (core log) ent (tr @ [CallNow (clock log)]) = None \<longrightarrow>
           r = \<lparr>Entry = ent, ErrorOutput_ce = None, after = after r\<rparr> \<and>
           tr' = tr @ [CallNow (clock log), CallCheck (core log) ent])"
  by (auto simp add: check_def terminal_def Let_def Level_simps After_def
      split: option.splits prod.splits dest: annotate_afterD)

theorem check_Fatal_forces_hook_witness:
  "onFatal service = Some (Action WriteThenNoop) \<and>
   core_Check silentSink (core service)
     \<lparr>Level = FatalLevel, Time = 0, LoggerName = ''svc'', Message = ''cannot open'',
      Caller = noCaller, Stack = []\<rparr> [CallNow (UserClock 0)] = None \<and>
   check silentSink service FatalLevel ''cannot open'' [] =
     Inr (Some \<lparr>Entry = \<lparr>Level = FatalLevel, Time = 0, LoggerName = ''svc'',
                          Message = ''cannot open'', Caller = noCaller, Stack = []\<rparr>,
                ErrorOutput_ce = None, after = Some (Action WriteThenFatal)\<rparr>,
          [CallNow (UserClock 0),
           CallCheck 1 \<lparr>Level = FatalLevel, Time = 0, LoggerName = ''svc'',
                        Message = ''cannot open'', Caller = noCaller, Stack = []\<rparr>]) \<and>
   onFatal (service\<lparr>onFatal := Some (CustomHook 7)\<rparr>) = Some (CustomHook 7) \<and>
   CustomHook 7 \<noteq> Action WriteThenNoop \<and>
   (\<exists>r tr'. check openSink (service\<lparr>onFatal := Some (CustomHook 7)\<rparr>) FatalLevel ''cannot open'' []
               = Inr (Some r, tr') \<and> after r = Some (CustomHook 7)) \<and>
   onFatal unnamed = None \<and>
   (\<exists>r tr'. check openSink unnamed FatalLevel ''cannot open'' [] = Inr (Some r, tr') \<and>
             after r = Some (Action WriteThenFatal))"
proof -
  have noop: "onFatal service = Some (Action WriteThenNoop)"
    by (simp add: service_def)
  have declined: "core_Check silentSink (core service)
     \<lparr>Level = FatalLevel, Time = 0, LoggerName = ''svc'', Message = ''cannot open'',
      Caller = noCaller, Stack = []\<rparr> [CallNow (UserClock 0)] = None"
    by (simp add: silentSink_def)
  have custom: "onFatal (service\<lparr>onFatal := Some (CustomHook 7)\<rparr>) = Some (CustomHook 7)"
    by simp
  have unset: "onFatal unnamed = None"
    by (simp add: unnamed_def)
  have a: "check silentSink service FatalLevel ''cannot open'' [] =
     Inr (Some \<lparr>Entry = \<lparr>Level = FatalLevel, Time = 0, LoggerName = ''svc'',
                          Message = ''cannot open'', Caller = noCaller, Stack = []\<rparr>,
                ErrorOutput_ce = None, after = Some (Action WriteThenFatal)\<rparr>,
          [CallNow (UserClock 0),
           CallCheck 1 \<lparr>Level = FatalLevel, Time = 0, LoggerName = ''svc'',
                        Message = ''cannot open'', Caller = noCaller, Stack = []\<rparr>])"
    using check_Fatal_forces_hook [of silentSink service "[]" "''cannot open''"] noop
    by (auto simp add: Let_def silentSink_def service_def)
  have b: "\<exists>r tr'. check openSink (service\<lparr>onFatal := Some (CustomHook 7)\<rparr>) FatalLevel ''cannot open'' []
               = Inr (Some r, tr') \<and> after r = Some (CustomHook 7)"
    using check_Fatal_forces_hook [of openSink "service\<lparr>onFatal := Some (CustomHook 7)\<rparr>" "[]" "''cannot open''"]
    by (auto simp add: Let_def)
  have c: "\<exists>r tr'. check openSink unnamed FatalLevel ''cannot open'' [] = Inr (Some r, tr') \<and>
             after r = Some (Action WriteThenFatal)"
    using check_Fatal_forces_hook [of openSink unnamed "[]" "''cannot open''"] unset
    by (auto simp add: Let_def)
  have other: "CustomHook 7 \<noteq> Action WriteThenNoop"
    by simp
  from noop declined a custom other b unset c show ?thesis
    by blast
qed

text \<open>
  C3. A call of the pipeline at PanicLevel always returns a record, and the action of
  the record is WriteThenPanic. When the sink's Check returned nothing the record is
  synthesized: it holds the entry and that action and nothing else, so it exists only to
  carry the panic. (Writing the record, CheckedEntry.Write, is not under src/.)
\<close>

theorem check_Panic_forces_panic:
  "let ent = \<lparr>Level = PanicLevel, Time = clock_Now zc (clock log) tr, LoggerName = name log,
               Message = msg, Caller = noCaller, Stack = []\<rparr>
   in \<exists>r tr'. check zc log PanicLevel msg tr = Inr (Some r, tr') \<and>
        after r = Some (Action WriteThenPanic) \<and>
        (core_Check zc (core log) ent (tr @ [CallNow (clock log)]) = None \<longrightarrow>
           r = \<lparr>Entry = ent, ErrorOutput_ce = None, after = Some (Action WriteThenPanic)\<rparr> \<and>
           tr' = tr @ [CallNow (clock log), CallCheck (core log) ent])"
  by (auto simp add: check_def terminal_def Let_def Level_simps After_def Should_def
      split: option.splits prod.splits dest: annotate_afterD)

theorem check_Panic_forces_panic_witness:
  "core_Check silentSink (core service)
     \<lparr>Level = PanicLevel, Time = 0, LoggerName = ''svc'', Message = ''invariant broken'',
      Caller = noCaller, Stack = []\<rparr> [CallNow (UserClock 0)] = None \<and>
   check silentSink service PanicLevel ''invariant broken'' [] =
     Inr (Some \<lparr>Entry = \<lparr>Level = PanicLevel, Time = 0, LoggerName = ''svc'',
                          Message = ''invariant broken'', Caller = noCaller, Stack = []\<rparr>,
                ErrorOutput_ce = None, after = Some (Action WriteThenPanic)\<rparr>,
          [CallNow (UserClock 0),
           CallCheck 1 \<lparr>Level = PanicLevel, Time = 0, LoggerName = ''svc'',
                        Message = ''invariant broken'', Caller = noCaller, Stack = []\<rparr>])"
proof -
  have declined: "core_Check silentSink (core service)
     \<lparr>Level = PanicLevel, Time = 0, LoggerName = ''svc'', Message = ''invariant broken'',
      Caller = noCaller, Stack = []\<rparr> [CallNow (UserClock 0)] = None"
    by (simp add: silentSink_def)
  have "check silentSink service PanicLevel ''invariant broken'' [] =
     Inr (Some \<lparr>Entry = \<lparr>Level = PanicLevel, Time = 0, LoggerName = ''svc'',
                          Message = ''invariant broken'', Caller = noCaller, Stack = []\<rparr>,
                ErrorOutput_ce = None, after = Some (Action WriteThenPanic)\<rparr>,
          [CallNow (UserClock 0),
           CallCheck 1 \<lparr>Level = PanicLevel, Time = 0, LoggerName = ''svc'',
                        Message = ''invariant broken'', Caller = noCaller, Stack = []\<rparr>])"
    using check_Panic_forces_panic [of silentSink service "[]" "''invariant broken''"]
    by (auto simp add: Let_def silentSink_def service_def)
  with declined show ?thesis by blast
qed

text \<open>
  C6. A call of the pipeline at DPanicLevel. In development mode it always returns a
  record whose action is WriteThenPanic, synthesized when the sink's Check returned
  nothing. Outside development mode no action is forced: the result is nil when the sink
  admitted nothing, and otherwise it is the sink's own record after the usual annotation,
  with the action the sink gave it.
\<close>

theorem check_DPanic_development:
  "let ent = \<lparr>Level = DPanicLevel, Time = clock_Now zc (clock log) tr, LoggerName = name log,
               Message = msg, Caller = noCaller, Stack = []\<rparr>;
       sink = core_Check zc (core log) ent (tr @ [CallNow (clock log)]);
       tr3 = tr @ [CallNow (clock log), CallCheck (core log) ent]
   in (development log \<longrightarrow>
         (\<exists>r tr'. check zc log DPanicLevel msg tr = Inr (Some r, tr') \<and>
            after r = Some (Action WriteThenPanic) \<and>
            (sink = None \<longrightarrow>
               r = \<lparr>Entry = ent, ErrorOutput_ce = None, after = Some (Action WriteThenPanic)\<rparr> \<and>
               tr' = tr3))) \<and>
      (\<not> development log \<longrightarrow>
         (sink = None \<longrightarrow> check zc log DPanicLevel msg tr = Inr (None, tr3)) \<and>
         (\<forall>r0. sink = Some r0 \<longrightarrow>
            check zc log DPanicLevel msg tr =
              Inr (Some (fst (annotate zc log ent r0 tr3)), snd (annotate zc log ent r0 tr3)) \<and>
            after (fst (annotate zc log ent r0 tr3)) = after r0))"
  by (auto simp add: check_def terminal_def Let_def Level_simps After_def Should_def annotate_after
      split: option.splits prod.splits dest: annotate_afterD)

theorem check_DPanic_development_witness:
  "development unnamed \<and>
   core_Check silentSink (core unnamed)
     \<lparr>Level = DPanicLevel, Time = 0, LoggerName = [], Message = ''unexpected'',
      Caller = noCaller, Stack = []\<rparr> [CallNow (UserClock 0)] = None \<and>
   check silentSink unnamed DPanicLevel ''unexpected'' [] =
     Inr (Some \<lparr>Entry = \<lparr>Level = DPanicLevel, Time = 0, LoggerName = [],
                          Message = ''unexpected'', Caller = noCaller, Stack = []\<rparr>,
                ErrorOutput_ce = None, after = Some (Action WriteThenPanic)\<rparr>,
          [CallNow (UserClock 0),
           CallCheck 1 \<lparr>Level = DPanicLevel, Time = 0, LoggerName = [],
                        Message = ''unexpected'', Caller = noCaller, Stack = []\<rparr>]) \<and>
   \<not> development service \<and>
   core_Check silentSink (core service)
     \<lparr>Level = DPanicLevel, Time = 0, LoggerName = ''svc'', Message = ''unexpected'',
      Caller = noCaller, Stack = []\<rparr> [CallNow (UserClock 0)] = None \<and>
   check silentSink service DPanicLevel ''unexpected'' [] =
     Inr (None,
          [CallNow (UserClock 0),
           CallCheck 1 \<lparr>Level = DPanicLevel, Time = 0, LoggerName = ''svc'',
                        Message = ''unexpected'', Caller = noCaller, Stack = []\<rparr>])"
proof -
  have dev: "development unnamed"
    by (simp add: unnamed_def service_def)
  have declined: "core_Check silentSink (core unnamed)
     \<lparr>Level = DPanicLevel, Time = 0, LoggerName = [], Message = ''unexpected'',
      Caller = noCaller, Stack = []\<rparr> [CallNow (UserClock 0)] = None"
    by (simp add: silentSink_def)
  have forced: "check silentSink unnamed DPanicLevel ''unexpected'' [] =
     Inr (Some \<lparr>Entry = \<lparr>Level = DPanicLevel, Time = 0, LoggerName = [],
                          Message = ''unexpected'', Caller = noCaller, Stack = []\<rparr>,
                ErrorOutput_ce = None, after = Some (Action WriteThenPanic)\<rparr>,
          [CallNow (UserClock 0),
           CallCheck 1 \<lparr>Level = DPanicLevel, Time = 0, LoggerName = [],
                        Message = ''unexpected'', Caller = noCaller, Stack = []\<rparr>])"
    using check_DPanic_development [of silentSink unnamed "[]" "''unexpected''"] dev
    by (auto simp add: Let_def silentSink_def unnamed_def service_def)
  have prod: "\<not> development service"
    by (simp add: service_def)
  have declined': "core_Check silentSink (core service)
     \<lparr>Level = DPanicLevel, Time = 0, LoggerName = ''svc'', Message = ''unexpected'',
      Caller = noCaller, Stack = []\<rparr> [CallNow (UserClock 0)] = None"
    by (simp add: silentSink_def)
  have plain: "check silentSink service DPanicLevel ''unexpected'' [] =
     Inr (None,
          [CallNow (UserClock 0),
           CallCheck 1 \<lparr>Level = DPanicLevel, Time = 0, LoggerName = ''svc'',
                        Message = ''unexpected'', Caller = noCaller, Stack = []\<rparr>])"
    using check_DPanic_development [of silentSink service "[]" "''unexpected''"] prod
    by (auto simp add: Let_def silentSink_def service_def)
  from dev declined forced prod declined' plain show ?thesis by blast
qed

text \<open>
  C7. When the level is not rejected at once and the sink's Check returns nothing, the
  pipeline returns what the terminal-action switch left, nil or a synthesized record, and
  stops there: the record (if any) holds the entry as it was built (no caller, no stack)
  and no error output, and the trace ends with the call of Check, so no stack was
  captured, whatever addCaller and addStack say.
\<close>

theorem check_no_write_returns_as_is:
  "let tr1 = (if lvl <s DPanicLevel then tr @ [CallEnabled (core log) lvl] else tr);
       ent = \<lparr>Level = lvl, Time = clock_Now zc (clock log) tr1, LoggerName = name log,
               Message = msg, Caller = noCaller, Stack = []\<rparr>
   in (lvl <s DPanicLevel \<longrightarrow> core_Enabled zc (core log) lvl tr) \<and>
      core_Check zc (core log) ent (tr1 @ [CallNow (clock log)]) = None \<longrightarrow>
      (\<exists>ce. check zc log lvl msg tr =
               Inr (ce, tr1 @ [CallNow (clock log), CallCheck (core log) ent]) \<and>
            (\<forall>r. ce = Some r \<longrightarrow> Entry r = ent \<and> ErrorOutput_ce r = None))"
  by (auto simp add: check_def Let_def dest: terminal_None)

theorem check_no_write_returns_as_is_witness:
  "InfoLevel <s DPanicLevel \<and> core_Enabled mutedSink (core service) InfoLevel [] \<and>
   core_Check mutedSink (core service)
     \<lparr>Level = InfoLevel, Time = 1, LoggerName = ''svc'', Message = ''hello'',
      Caller = noCaller, Stack = []\<rparr> [CallEnabled 1 InfoLevel, CallNow (UserClock 0)] = None \<and>
   check mutedSink service InfoLevel ''hello'' [] =
     Inr (None,
          [CallEnabled 1 InfoLevel, CallNow (UserClock 0),
           CallCheck 1 \<lparr>Level = InfoLevel, Time = 1, LoggerName = ''svc'',
                        Message = ''hello'', Caller = noCaller, Stack = []\<rparr>])"
proof -
  have below: "InfoLevel <s DPanicLevel"
    by (simp add: Level_simps)
  have on: "core_Enabled mutedSink (core service) InfoLevel []"
    by (simp add: mutedSink_def silentSink_def)
  have declined: "core_Check mutedSink (core service)
     \<lparr>Level = InfoLevel, Time = 1, LoggerName = ''svc'', Message = ''hello'',
      Caller = noCaller, Stack = []\<rparr> [CallEnabled 1 InfoLevel, CallNow (UserClock 0)] = None"
    by (simp add: mutedSink_def silentSink_def)
  have "check mutedSink service InfoLevel ''hello'' [] =
     Inr (None,
          [CallEnabled 1 InfoLevel, CallNow (UserClock 0),
           CallCheck 1 \<lparr>Level = InfoLevel, Time = 1, LoggerName = ''svc'',
                        Message = ''hello'', Caller = noCaller, Stack = []\<rparr>])"
    using check_no_write_returns_as_is [of InfoLevel "[]" service mutedSink "''hello''"] below
    by (auto simp add: Let_def mutedSink_def silentSink_def service_def check_def terminal_def
        InfoLevel_def PanicLevel_def FatalLevel_def DPanicLevel_def word_sless_alt)
  with below on declined show ?thesis by blast
qed

text \<open>
  C9. When the entry is admitted (the sink's Check returned a record), caller annotation
  is on and the capture session has no frame, the pipeline writes one report to the
  Logger's error output, syncs it, releases the session and returns the record normally:
  among the events of this call exactly one is a report to the error output, the result
  is not a panic, and the record carries the sink's entry unchanged (no caller was set)
  with the error output attached.
\<close>

theorem check_no_frames_reports_once:
  "let tr1 = (if lvl <s DPanicLevel then tr @ [CallEnabled (core log) lvl] else tr);
       ent = \<lparr>Level = lvl, Time = clock_Now zc (clock log) tr1, LoggerName = name log,
               Message = msg, Caller = noCaller, Stack = []\<rparr>;
       tr3 = tr1 @ [CallNow (clock log), CallCheck (core log) ent];
       depth = (if Enabled_le (addStack log) (Level (Entry r0))
                then stacktraceFull else stacktraceFirst);
       report = CallFprintf (errorOutput log)
                  (''%v Logger.check error: failed to get caller'' @ [CHR 0x0A])
                  [ArgTime (Time ent)]
   in (lvl <s DPanicLevel \<longrightarrow> core_Enabled zc (core log) lvl tr) \<and>
      core_Check zc (core log) ent (tr1 @ [CallNow (clock log)]) = Some r0 \<and>
      addCaller log \<and>
      captureStacktrace zc (callerSkip log + callerSkipOffset) depth tr3 = [] \<longrightarrow>
      (\<exists>r tr'. check zc log lvl msg tr = Inr (Some r, tr') \<and>
         tr' = tr3 @ [CallCapture (callerSkip log + callerSkipOffset) depth, report,
                      CallSync (errorOutput log), CallFree] \<and>
         length (filter (isReport (errorOutput log)) (drop (length tr) tr')) = 1 \<and>
         Entry r = Entry r0 \<and> ErrorOutput_ce r = Some (errorOutput log))"
proof -
  define tr1 where "tr1 = (if lvl <s DPanicLevel then tr @ [CallEnabled (core log) lvl] else tr)"
  define ent where "ent = \<lparr>Level = lvl, Time = clock_Now zc (clock log) tr1, LoggerName = name log,
               Message = msg, Caller = noCaller, Stack = []\<rparr>"
  define tr3 where "tr3 = tr1 @ [CallNow (clock log), CallCheck (core log) ent]"
  define depth where "depth = (if Enabled_le (addStack log) (Level (Entry r0))
                then stacktraceFull else stacktraceFirst)"
  have goal: "\<exists>r tr'. check zc log lvl msg tr = Inr (Some r, tr') \<and>
         tr' = tr3 @ [CallCapture (callerSkip log + callerSkipOffset) depth,
                      CallFprintf (errorOutput log)
                        (''%v Logger.check error: failed to get caller'' @ [CHR 0x0A])
                        [ArgTime (Time ent)],
                      CallSync (errorOutput log), CallFree] \<and>
         length (filter (isReport (errorOutput log)) (drop (length tr) tr')) = 1 \<and>
         Entry r = Entry r0 \<and> ErrorOutput_ce r = Some (errorOutput log)"
    if on: "lvl <s DPanicLevel \<longrightarrow> core_Enabled zc (core log) lvl tr"
      and admitted: "core_Check zc (core log) ent (tr1 @ [CallNow (clock log)]) = Some r0"
      and caller: "addCaller log"
      and empty: "captureStacktrace zc (callerSkip log + callerSkipOffset) depth tr3 = []"
  proof -
    obtain r1 where r1: "terminal log ent (Some r0) = Some r1"
      using terminal_Some_ex by blast
    then have same: "Entry r1 = Entry r0"
      using terminal_Some by blast
    have ann: "annotate zc log ent r1 tr3 =
       (r1\<lparr>ErrorOutput_ce := Some (errorOutput log)\<rparr>,
        tr3 @ [CallCapture (callerSkip log + callerSkipOffset) depth,
              CallFprintf (errorOutput log)
                (''%v Logger.check error: failed to get caller'' @ [CHR 0x0A]) [ArgTime (Time ent)],
              CallSync (errorOutput log), CallFree])"
      using annotate_no_frames [of log zc r1 tr3 ent] caller empty same
      by (simp add: depth_def)
    have run: "check zc log lvl msg tr =
       Inr (Some (r1\<lparr>ErrorOutput_ce := Some (errorOutput log)\<rparr>),
            tr3 @ [CallCapture (callerSkip log + callerSkipOffset) depth,
              CallFprintf (errorOutput log)
                (''%v Logger.check error: failed to get caller'' @ [CHR 0x0A]) [ArgTime (Time ent)],
              CallSync (errorOutput log), CallFree])"
      using on admitted r1 ann
      by (auto simp add: check_def Let_def tr1_def ent_def tr3_def)
    have count: "length (filter (isReport (errorOutput log)) (drop (length tr)
            (tr3 @ [CallCapture (callerSkip log + callerSkipOffset) depth,
              CallFprintf (errorOutput log)
                (''%v Logger.check error: failed to get caller'' @ [CHR 0x0A]) [ArgTime (Time ent)],
              CallSync (errorOutput log), CallFree]))) = 1"
      by (simp add: tr3_def tr1_def)
    from run count same show ?thesis by simp
  qed
  then show ?thesis
    unfolding Let_def tr1_def ent_def tr3_def depth_def by blast
qed

theorem check_no_frames_reports_once_witness:
  "InfoLevel <s DPanicLevel \<and> core_Enabled openSink (core service) InfoLevel [] \<and>
   core_Check openSink (core service)
     \<lparr>Level = InfoLevel, Time = 1, LoggerName = ''svc'', Message = ''hello'',
      Caller = noCaller, Stack = []\<rparr> [CallEnabled 1 InfoLevel, CallNow (UserClock 0)] =
     Some \<lparr>Entry = \<lparr>Level = InfoLevel, Time = 1, LoggerName = ''svc'', Message = ''hello'',
                     Caller = noCaller, Stack = []\<rparr>,
           ErrorOutput_ce = None, after = None\<rparr> \<and>
   addCaller service \<and>
   captureStacktrace openSink (callerSkip service + callerSkipOffset) stacktraceFirst
     [CallEnabled 1 InfoLevel, CallNow (UserClock 0),
      CallCheck 1 \<lparr>Level = InfoLevel, Time = 1, LoggerName = ''svc'', Message = ''hello'',
                   Caller = noCaller, Stack = []\<rparr>] = [] \<and>
   check openSink service InfoLevel ''hello'' [] =
     Inr (Some \<lparr>Entry = \<lparr>Level = InfoLevel, Time = 1, LoggerName = ''svc'', Message = ''hello'',
                          Caller = noCaller, Stack = []\<rparr>,
                ErrorOutput_ce = Some (UserSyncer 0), after = None\<rparr>,
          [CallEnabled 1 InfoLevel, CallNow (UserClock 0),
           CallCheck 1 \<lparr>Level = InfoLevel, Time = 1, LoggerName = ''svc'', Message = ''hello'',
                        Caller = noCaller, Stack = []\<rparr>,
           CallCapture 2 stacktraceFirst,
           CallFprintf (UserSyncer 0)
             (''%v Logger.check error: failed to get caller'' @ [CHR 0x0A]) [ArgTime 1],
           CallSync (UserSyncer 0), CallFree])"
proof -
  have below: "InfoLevel <s DPanicLevel"
    by (simp add: Level_simps)
  have on: "core_Enabled openSink (core service) InfoLevel []"
    by (simp add: openSink_def silentSink_def)
  have admitted: "core_Check openSink (core service)
     \<lparr>Level = InfoLevel, Time = 1, LoggerName = ''svc'', Message = ''hello'',
      Caller = noCaller, Stack = []\<rparr> [CallEnabled 1 InfoLevel, CallNow (UserClock 0)] =
     Some \<lparr>Entry = \<lparr>Level = InfoLevel, Time = 1, LoggerName = ''svc'', Message = ''hello'',
                     Caller = noCaller, Stack = []\<rparr>,
           ErrorOutput_ce = None, after = None\<rparr>"
    by (simp add: openSink_def silentSink_def)
  have caller: "addCaller service"
    by (simp add: service_def)
  have empty: "captureStacktrace openSink (callerSkip service + callerSkipOffset) stacktraceFirst
     [CallEnabled 1 InfoLevel, CallNow (UserClock 0),
      CallCheck 1 \<lparr>Level = InfoLevel, Time = 1, LoggerName = ''svc'', Message = ''hello'',
                   Caller = noCaller, Stack = []\<rparr>] = []"
    by (simp add: openSink_def silentSink_def)
  have "check openSink service InfoLevel ''hello'' [] =
     Inr (Some \<lparr>Entry = \<lparr>Level = InfoLevel, Time = 1, LoggerName = ''svc'', Message = ''hello'',
                          Caller = noCaller, Stack = []\<rparr>,
                ErrorOutput_ce = Some (UserSyncer 0), after = None\<rparr>,
          [CallEnabled 1 InfoLevel, CallNow (UserClock 0),
           CallCheck 1 \<lparr>Level = InfoLevel, Time = 1, LoggerName = ''svc'', Message = ''hello'',
                        Caller = noCaller, Stack = []\<rparr>,
           CallCapture 2 stacktraceFirst,
           CallFprintf (UserSyncer 0)
             (''%v Logger.check error: failed to get caller'' @ [CHR 0x0A]) [ArgTime 1],
           CallSync (UserSyncer 0), CallFree])"
    using check_no_frames_reports_once [where lvl = InfoLevel and tr = "[]" and log = service
        and zc = openSink and msg = "''hello''"
        and ?r0.0 = "\<lparr>Entry = \<lparr>Level = InfoLevel, Time = 1, LoggerName = ''svc'',
                         Message = ''hello'', Caller = noCaller, Stack = []\<rparr>,
                       ErrorOutput_ce = None, after = None\<rparr>"] below
    by (auto simp add: Let_def openSink_def silentSink_def service_def check_def terminal_def
        annotate_def callerSkipOffset_def
        InfoLevel_def PanicLevel_def FatalLevel_def DPanicLevel_def word_sless_alt word_sle_eq)
  with below on admitted caller empty show ?thesis by blast
qed

text \<open>
  C8. WithOptions on a valid receiver makes one working copy (the one Logger it
  allocates, at the fresh address it returns) and applies the options to it in order,
  left to right: the copy ends as the left-to-right application \<open>inOrder\<close> of the
  options to the receiver's value. Accumulating options add up: the caller skip of the
  result is the receiver's plus the sum of the skips of all AddCallerSkip options, so
  AddCallerSkip m then AddCallerSkip n add m + n (in the wrapping arithmetic of Go's int,
  taken as 64 bits). An option that sets a field overrides whatever earlier options did
  to that field: the last WithCaller, ErrorOutput, AddStacktrace, WithFatalHook or
  WithClock decides the field.
\<close>

theorem WithOptions_in_order_additive:
  assumes "deref st log = Inr L"
  shows "(\<exists>st'. WithOptions zc log opts st = Inr (Addr (length (heap st)), st') \<and>
            heap st' = heap st @ [fst (inOrder zc opts L (trace st))] \<and>
            trace st' = snd (inOrder zc opts L (trace st))) \<and>
         map_option callerSkip (returned (WithOptions zc log opts st)) =
           Some (callerSkip L + sum_list (map skipOf opts)) \<and>
         map_option callerSkip (returned (WithOptions zc log [AddCallerSkip m, AddCallerSkip n] st)) =
           Some (callerSkip L + (m + n)) \<and>
         map_option addCaller (returned (WithOptions zc log (opts @ [WithCaller b]) st)) = Some b \<and>
         map_option errorOutput (returned (WithOptions zc log (opts @ [ErrorOutput w]) st)) = Some w \<and>
         map_option addStack (returned (WithOptions zc log (opts @ [AddStacktrace e]) st)) = Some e \<and>
         map_option onFatal (returned (WithOptions zc log (opts @ [WithFatalHook h]) st)) = Some h \<and>
         map_option clock (returned (WithOptions zc log (opts @ [WithClock k]) st)) = Some k"
proof -
  have run: "\<exists>st'. WithOptions zc log opts st = Inr (Addr (length (heap st)), st') \<and>
            heap st' = heap st @ [fst (inOrder zc opts L (trace st))] \<and>
            trace st' = snd (inOrder zc opts L (trace st))"
    using assms by (simp add: WithOptions_run)
  have total: "map_option callerSkip (returned (WithOptions zc log opts st)) =
           Some (callerSkip L + sum_list (map skipOf opts))"
    using assms by (simp add: returned_WithOptions inOrder_callerSkip)
  have two: "map_option callerSkip (returned (WithOptions zc log [AddCallerSkip m, AddCallerSkip n] st)) =
           Some (callerSkip L + (m + n))"
    using assms by (simp add: returned_WithOptions add.assoc)
  have last: "map_option addCaller (returned (WithOptions zc log (opts @ [WithCaller b]) st)) = Some b"
    "map_option errorOutput (returned (WithOptions zc log (opts @ [ErrorOutput w]) st)) = Some w"
    "map_option addStack (returned (WithOptions zc log (opts @ [AddStacktrace e]) st)) = Some e"
    "map_option onFatal (returned (WithOptions zc log (opts @ [WithFatalHook h]) st)) = Some h"
    "map_option clock (returned (WithOptions zc log (opts @ [WithClock k]) st)) = Some k"
    using assms by (simp_all add: returned_WithOptions inOrder_snoc)
  from run total two last show ?thesis by blast
qed

theorem WithOptions_in_order_additive_witness:
  "deref world (Addr 0) = Inr service \<and>
   (\<exists>st'. WithOptions silentSink (Addr 0) [AddCallerSkip 1, AddCallerSkip 2] world =
            Inr (Addr 2, st') \<and>
          heap st' = [service, unnamed, service\<lparr>callerSkip := 3\<rparr>]) \<and>
   map_option callerSkip
     (returned (WithOptions silentSink (Addr 0) [AddCallerSkip 1, AddCallerSkip 2] world)) = Some 3 \<and>
   map_option addCaller
     (returned (WithOptions silentSink (Addr 0)
        ([AddCallerSkip 1, AddCallerSkip 2] @ [WithCaller False]) world)) = Some False"
proof -
  have valid: "deref world (Addr 0) = Inr service"
    by (simp add: deref_def world_def)
  have skip0: "callerSkip service = 0"
    by (simp add: service_def)
  have size2: "length (heap world) = 2"
    by (simp add: world_def)
  note inst = WithOptions_in_order_additive [OF valid, where zc = silentSink
      and opts = "[AddCallerSkip 1, AddCallerSkip 2]" and m = 1 and n = 2 and b = False
      and w = LockedStderr and e = "LevelThreshold 0" and h = None and k = DefaultClock]
  have a: "\<exists>st'. WithOptions silentSink (Addr 0) [AddCallerSkip 1, AddCallerSkip 2] world =
            Inr (Addr 2, st') \<and>
          heap st' = [service, unnamed, service\<lparr>callerSkip := 3\<rparr>]"
    using inst skip0 size2 by (auto simp add: world_def)
  have b: "map_option callerSkip
     (returned (WithOptions silentSink (Addr 0) [AddCallerSkip 1, AddCallerSkip 2] world)) = Some 3"
    using inst skip0 by simp
  have c: "map_option addCaller
     (returned (WithOptions silentSink (Addr 0)
        ([AddCallerSkip 1, AddCallerSkip 2] @ [WithCaller False]) world)) = Some False"
    using inst by blast
  from valid a b c show ?thesis by blast
qed

text \<open>
  C10. For every list of options, New with a nil core is NewNop: it returns a pointer to
  a newly allocated Logger (never nil, never a panic) with the no-op core, the
  discarding error output and every other field at its default, so none of the options
  was applied.
\<close>

theorem New_nil_core_is_NewNop:
  "New zc None options st = Inr (NewNop zc st) \<and>
   fst (NewNop zc st) = Addr (length (heap st)) \<and>
   returned (New zc None options st) =
     Some \<lparr>core = NewNopCore zc, development = False, addCaller = False, onFatal = None,
           name = [], errorOutput = DiscardSyncer,
           addStack = LevelThreshold (FatalLevel + 1), callerSkip = 0, clock = DefaultClock\<rparr>"
  by (simp add: New_def NewNop_def alloc_def returned_def deref_def)

theorem New_nil_core_is_NewNop_witness:
  "returned (New openSink None
      [Development, WithCaller True, ErrorOutput LockedStderr, AddCallerSkip 3] world) =
     Some \<lparr>core = 0, development = False, addCaller = False, onFatal = None,
           name = [], errorOutput = DiscardSyncer,
           addStack = LevelThreshold 6, callerSkip = 0, clock = DefaultClock\<rparr>"
proof -
  have nop: "NewNopCore openSink = 0"
    by (simp add: openSink_def silentSink_def)
  have "returned (New openSink None
      [Development, WithCaller True, ErrorOutput LockedStderr, AddCallerSkip 3] world) =
     Some \<lparr>core = NewNopCore openSink, development = False, addCaller = False, onFatal = None,
           name = [], errorOutput = DiscardSyncer,
           addStack = LevelThreshold (FatalLevel + 1), callerSkip = 0, clock = DefaultClock\<rparr>"
    using New_nil_core_is_NewNop [of openSink
        "[Development, WithCaller True, ErrorOutput LockedStderr, AddCallerSkip 3]" world]
    by blast
  then show ?thesis
    by (simp add: nop FatalLevel_def)
qed

text \<open>
  C4, as amended. On a valid receiver, Named, With, WithOptions and Sugar return
  normally and leave the heap as it was: every Logger allocated before the call, the
  receiver among them, is unchanged field for field. Each returns either the receiver
  itself with the state untouched (Named with the empty segment, With with no fields),
  or a fresh pointer to a copy of the receiver in which only the named fields differ
  (the name, the core, the fields the options set, the caller skip). The pipeline run
  through the receiver after With gives what it gave before.
\<close>

theorem derived_loggers_leave_receiver_unchanged:
  assumes "deref st log = Inr L"
  shows
   "(\<exists>p st'. Named log s st = Inr (p, st') \<and>
        take (length (heap st)) (heap st') = heap st \<and> deref st' log = Inr L \<and>
        (if s = [] then p = log \<and> st' = st
         else fresh st p \<and>
              deref st' p = Inr (L\<lparr>name := (if name L = [] then s else name L @ ''.'' @ s)\<rparr>))) \<and>
    (\<exists>p st'. With zc log fs st = Inr (p, st') \<and>
        take (length (heap st)) (heap st') = heap st \<and> deref st' log = Inr L \<and>
        (if fs = [] then p = log \<and> st' = st
         else fresh st p \<and> deref st' p = Inr (L\<lparr>core := core_With zc (core L) fs\<rparr>)) \<and>
        map_sum id fst (Check zc log lvl msg st') = map_sum id fst (Check zc log lvl msg st)) \<and>
    (\<exists>p st'. WithOptions zc log opts st = Inr (p, st') \<and>
        take (length (heap st)) (heap st') = heap st \<and> deref st' log = Inr L \<and>
        fresh st p \<and> deref st' p = Inr (fst (inOrder zc opts L (trace st)))) \<and>
    (\<exists>p st'. Sugar log st = Inr (SugaredLogger p, st') \<and>
        take (length (heap st)) (heap st') = heap st \<and> deref st' log = Inr L \<and>
        fresh st p \<and> deref st' p = Inr (L\<lparr>callerSkip := callerSkip L + 2\<rparr>))"
proof -
  have named: "\<exists>p st'. Named log s st = Inr (p, st') \<and>
        take (length (heap st)) (heap st') = heap st \<and> deref st' log = Inr L \<and>
        (if s = [] then p = log \<and> st' = st
         else fresh st p \<and>
              deref st' p = Inr (L\<lparr>name := (if name L = [] then s else name L @ ''.'' @ s)\<rparr>))"
  proof (cases "s = []")
    case True
    then show ?thesis using assms by (simp add: Named_def)
  next
    case False
    then show ?thesis
      using assms Named_run [OF assms False]
      by (simp add: deref_grown' deref_new fresh_new)
  qed
  have with_fields: "\<exists>p st'. With zc log fs st = Inr (p, st') \<and>
        take (length (heap st)) (heap st') = heap st \<and> deref st' log = Inr L \<and>
        (if fs = [] then p = log \<and> st' = st
         else fresh st p \<and> deref st' p = Inr (L\<lparr>core := core_With zc (core L) fs\<rparr>)) \<and>
        map_sum id fst (Check zc log lvl msg st') = map_sum id fst (Check zc log lvl msg st)"
  proof (cases "fs = []")
    case True
    then show ?thesis using assms by (simp add: With_def)
  next
    case False
    have same: "map_sum id fst (Check zc log lvl msg
                  (st\<lparr>heap := heap st @ [L\<lparr>core := core_With zc (core L) fs\<rparr>]\<rparr>)) =
                map_sum id fst (Check zc log lvl msg st)"
      using assms by (intro Check_same) (simp_all add: deref_grown')
    show ?thesis
      using assms False With_run [OF assms False, of zc] same
      by (simp add: deref_grown' deref_new fresh_new)
  qed
  have options: "\<exists>p st'. WithOptions zc log opts st = Inr (p, st') \<and>
        take (length (heap st)) (heap st') = heap st \<and> deref st' log = Inr L \<and>
        fresh st p \<and> deref st' p = Inr (fst (inOrder zc opts L (trace st)))"
    using assms WithOptions_run [OF assms]
    by (simp add: deref_grown deref_new fresh_new)
  have sugar: "\<exists>p st'. Sugar log st = Inr (SugaredLogger p, st') \<and>
        take (length (heap st)) (heap st') = heap st \<and> deref st' log = Inr L \<and>
        fresh st p \<and> deref st' p = Inr (L\<lparr>callerSkip := callerSkip L + 2\<rparr>)"
    using assms Sugar_run [OF assms]
    by (simp add: deref_grown' deref_new fresh_new)
  from named with_fields options sugar show ?thesis by blast
qed

theorem derived_loggers_leave_receiver_unchanged_witness:
  "deref world (Addr 0) = Inr service \<and>
   (\<exists>st'. With silentSink (Addr 0) [(''user'', ''ada'')] world = Inr (Addr 2, st') \<and>
      heap st' = [service, unnamed, service\<lparr>core := 2\<rparr>] \<and>
      map_sum id fst (Check silentSink (Addr 0) InfoLevel ''hello'' st') =
        map_sum id fst (Check silentSink (Addr 0) InfoLevel ''hello'' world)) \<and>
   (\<exists>st'. Named (Addr 0) ''db'' world = Inr (Addr 2, st') \<and>
      heap st' = [service, unnamed, service\<lparr>name := ''svc.db''\<rparr>]) \<and>
   (\<exists>st'. Sugar (Addr 0) world = Inr (SugaredLogger (Addr 2), st') \<and>
      heap st' = [service, unnamed, service\<lparr>callerSkip := 2\<rparr>])"
proof -
  have valid: "deref world (Addr 0) = Inr service"
    by (simp add: deref_def world_def)
  have facts: "name service = ''svc''" "core service = 1" "callerSkip service = 0"
    "core_With silentSink 1 [(''user'', ''ada'')] = 2" "length (heap world) = 2"
    "heap world = [service, unnamed]"
    by (simp_all add: service_def silentSink_def world_def)
  note inst = derived_loggers_leave_receiver_unchanged [OF valid, where s = "''db''"
      and zc = silentSink and fs = "[(''user'', ''ada'')]" and lvl = InfoLevel
      and msg = "''hello''" and opts = "[]"]
  have a: "\<exists>st'. With silentSink (Addr 0) [(''user'', ''ada'')] world = Inr (Addr 2, st') \<and>
      heap st' = [service, unnamed, service\<lparr>core := 2\<rparr>] \<and>
      map_sum id fst (Check silentSink (Addr 0) InfoLevel ''hello'' st') =
        map_sum id fst (Check silentSink (Addr 0) InfoLevel ''hello'' world)"
    using inst With_run [OF valid, of "[(''user'', ''ada'')]" silentSink] facts
    by auto
  have b: "\<exists>st'. Named (Addr 0) ''db'' world = Inr (Addr 2, st') \<and>
      heap st' = [service, unnamed, service\<lparr>name := ''svc.db''\<rparr>]"
    using inst Named_run [OF valid, of "''db''"] facts
    by auto
  have c: "\<exists>st'. Sugar (Addr 0) world = Inr (SugaredLogger (Addr 2), st') \<and>
      heap st' = [service, unnamed, service\<lparr>callerSkip := 2\<rparr>]"
    using inst Sugar_run [OF valid] facts
    by auto
  from valid a b c show ?thesis by blast
qed

text \<open>
  C4 as stated fails where it says that each operation returns a new snapshot: Named
  with the empty segment and With with no fields return the pointer they were called on,
  which is not fresh, and allocate nothing.
\<close>

theorem Named_empty_returns_receiver:
  "Named (Addr 0) [] world = Inr (Addr 0, world) \<and> \<not> fresh world (Addr 0) \<and>
   With silentSink (Addr 0) [] world = Inr (Addr 0, world)"
  by (simp add: Named_def With_def fresh_def world_def)

text \<open>
  C5, as amended. Named with the empty segment returns the receiver and changes nothing.
  On an unnamed Logger, Named s yields the name s; on a Logger named n, Named s with a
  non-empty s yields n.s. So two non-empty segments a and b, added one after the other,
  yield a.b on an unnamed Logger and n.a.b on a Logger named n.
\<close>

theorem Named_joins_segments:
  assumes "deref st log = Inr L"
  shows "Named log [] st = Inr (log, st) \<and>
         (name L = [] \<longrightarrow> map_option name (returned (Named log s st)) = Some s) \<and>
         (s \<noteq> [] \<and> name L \<noteq> [] \<longrightarrow>
            map_option name (returned (Named log s st)) = Some (name L @ ''.'' @ s)) \<and>
         (a \<noteq> [] \<and> b \<noteq> [] \<longrightarrow>
            map_option name (returned (andThen (Named log a st) (\<lambda>(p, st1). Named p b st1))) =
              Some (if name L = [] then a @ ''.'' @ b else name L @ ''.'' @ a @ ''.'' @ b))"
proof -
  have noop: "Named log [] st = Inr (log, st)"
    by (simp add: Named_def)
  have first: "map_option name (returned (Named log s st)) = Some s" if "name L = []"
  proof (cases "s = []")
    case True
    with that assms show ?thesis
      by (simp add: Named_def returned_receiver)
  next
    case False
    with that show ?thesis
      by (simp add: Named_returned [OF assms False])
  qed
  have join: "map_option name (returned (Named log s st)) = Some (name L @ ''.'' @ s)"
    if "s \<noteq> []" and "name L \<noteq> []"
    using that by (simp add: Named_returned [OF assms that(1)])
  have twice: "map_option name (returned (andThen (Named log a st) (\<lambda>(p, st1). Named p b st1))) =
              Some (if name L = [] then a @ ''.'' @ b else name L @ ''.'' @ a @ ''.'' @ b)"
    if a: "a \<noteq> []" and b: "b \<noteq> []"
  proof -
    let ?L1 = "L\<lparr>name := (if name L = [] then a else name L @ ''.'' @ a)\<rparr>"
    let ?st1 = "st\<lparr>heap := heap st @ [?L1]\<rparr>"
    have one: "Named log a st = Inr (Addr (length (heap st)), ?st1)"
      by (rule Named_run [OF assms a])
    have child: "deref ?st1 (Addr (length (heap st))) = Inr ?L1"
      by (simp add: deref_new)
    have "returned (Named (Addr (length (heap st))) b ?st1) =
            Some (?L1\<lparr>name := (if name ?L1 = [] then b else name ?L1 @ ''.'' @ b)\<rparr>)"
      by (rule Named_returned [OF child b])
    with one a show ?thesis
      by (simp add: andThen_def)
  qed
  from noop first join twice show ?thesis by blast
qed

theorem Named_joins_segments_witness:
  "deref world (Addr 1) = Inr unnamed \<and> name unnamed = [] \<and>
   map_option name (returned (Named (Addr 1) ''s'' world)) = Some ''s'' \<and>
   map_option name (returned (andThen (Named (Addr 1) ''a'' world) (\<lambda>(p, st1). Named p ''b'' st1))) =
     Some ''a.b'' \<and>
   deref world (Addr 0) = Inr service \<and> name service \<noteq> [] \<and>
   map_option name (returned (Named (Addr 0) ''s'' world)) = Some ''svc.s''"
proof -
  have valid: "deref world (Addr 1) = Inr unnamed"
    by (simp add: deref_def world_def)
  have anonymous: "name unnamed = []"
    by (simp add: unnamed_def)
  have valid0: "deref world (Addr 0) = Inr service"
    by (simp add: deref_def world_def)
  have called: "name service = ''svc''"
    by (simp add: service_def)
  have one: "map_option name (returned (Named (Addr 1) ''s'' world)) = Some ''s''"
    using Named_joins_segments [OF valid, of "''s''" "''a''" "''b''"] anonymous by blast
  have two: "map_option name
      (returned (andThen (Named (Addr 1) ''a'' world) (\<lambda>(p, st1). Named p ''b'' st1))) = Some ''a.b''"
    using Named_joins_segments [OF valid, of "''s''" "''a''" "''b''"] anonymous by simp
  have three: "map_option name (returned (Named (Addr 0) ''s'' world)) = Some ''svc.s''"
    using Named_joins_segments [OF valid0, of "''s''" "''a''" "''b''"] called by simp
  from valid anonymous one two valid0 called three show ?thesis by simp
qed

text \<open>
  C5 as stated fails for a Logger that already has a name: on the Logger named svc,
  Named a then Named b yield svc.a.b, not a.b.
\<close>

theorem Named_on_named_logger_keeps_prefix:
  "deref world (Addr 0) = Inr service \<and>
   map_option name (returned (andThen (Named (Addr 0) ''a'' world) (\<lambda>(p, st1). Named p ''b'' st1))) =
     Some ''svc.a.b'' \<and>
   map_option name (returned (andThen (Named (Addr 0) ''a'' world) (\<lambda>(p, st1). Named p ''b'' st1))) \<noteq>
     Some ''a.b''"
proof -
  have valid0: "deref world (Addr 0) = Inr service"
    by (simp add: deref_def world_def)
  have "returned (andThen (Named (Addr 0) ''a'' world) (\<lambda>(p, st1). Named p ''b'' st1)) =
          Some (service\<lparr>name := ''svc.a.b''\<rparr>)"
    by (simp add: Named_def andThen_def clone_def deref_def alloc_def assign_def returned_def
        world_def service_def)
  with valid0 show ?thesis by simp
qed

end
